theory Spec2Isabelle
  imports Main "HOL-Library.AList" "HOL-Library.Char_ord" "HOL-Library.List_Lexorder"
begin

section \<open>The omegaUp i18n linter (stuff/i18n\_linter.py)\<close>

text \<open>
  A Python \<open>str\<close> is modelled as a \<^typ>\<open>string\<close> whose characters are code points
  (the 8-bit range U+0000 .. U+00FF that \<^typ>\<open>char\<close> offers), a Python \<open>bytes\<close> object as a
  \<^typ>\<open>string\<close> whose characters are bytes. The two are related by \<open>utf8_decode\<close> and
  \<open>utf8_encode\<close> below. A Python \<open>dict\<close> is an association list in insertion order:
  \<^const>\<open>map_of\<close> reads it, \<^const>\<open>AList.update\<close> writes it (an existing key keeps its place, a
  new key goes to the end).
\<close>

subsection \<open>Characters and the string methods the linter calls\<close>

abbreviation (input) quote :: char where "quote \<equiv> CHR 0x22"
abbreviation (input) apostrophe :: char where "apostrophe \<equiv> CHR 0x27"
abbreviation (input) backslash :: char where "backslash \<equiv> CHR 0x5C"
abbreviation (input) newline :: char where "newline \<equiv> CHR 0x0A"
abbreviation (input) tab :: char where "tab \<equiv> CHR 0x09"


definition is_ident :: "char \<Rightarrow> bool" where
  \<comment> \<open>the character class \<open>[a-zA-Z0-9_-]\<close>\<close>
  "is_ident c = (let n = (of_char c :: nat)
     in (97 \<le> n \<and> n \<le> 122) \<or> (65 \<le> n \<and> n \<le> 90) \<or> (48 \<le> n \<and> n \<le> 57)
        \<or> c = CHR ''_'' \<or> c = CHR ''-'')"

definition startswith :: "string \<Rightarrow> string \<Rightarrow> bool" where
  \<comment> \<open>\<open>s.startswith(p)\<close>\<close>
  "startswith p s = (take (length p) s = p)"

definition endswith :: "string \<Rightarrow> string \<Rightarrow> bool" where
  \<comment> \<open>\<open>s.endswith(p)\<close>\<close>
  "endswith p s = (length p \<le> length s \<and> drop (length s - length p) s = p)"


function replace :: "string \<Rightarrow> string \<Rightarrow> string \<Rightarrow> string" where
  \<comment> \<open>\<open>s.replace(old, new)\<close>: every occurrence, left to right, without overlap\<close>
  "replace old new [] = (if old = [] then new else [])"
| "replace old new (c # cs) =
     (if old = [] then new @ c # replace old new cs
      else if startswith old (c # cs) then new @ replace old new (drop (length old) (c # cs))
      else c # replace old new cs)"
  by pat_completeness auto
termination
  by (relation "measure (\<lambda>(old, new, s). length s)") (auto simp: neq_Nil_conv)

definition hexdigit :: "nat \<Rightarrow> char" where
  "hexdigit n = ''0123456789abcdef'' ! (n mod 16)"

definition is_printable :: "char \<Rightarrow> bool" where
  \<comment> \<open>\<open>str.isprintable\<close> on the 8-bit range\<close>
  "is_printable c = (let n = (of_char c :: nat) in (32 \<le> n \<and> n \<le> 126) \<or> (161 \<le> n \<and> n \<noteq> 173))"

definition repr_char :: "char \<Rightarrow> char \<Rightarrow> string" where
  "repr_char q c =
     (if c = q \<or> c = backslash then [backslash, c]
      else if c = tab then [backslash, CHR ''t'']
      else if c = newline then [backslash, CHR ''n'']
      else if c = CHR 0x0D then [backslash, CHR ''r'']
      else if \<not> is_printable c
        then [backslash, CHR ''x'', hexdigit (of_char c div 16), hexdigit (of_char c mod 16)]
      else [c])"

definition py_repr :: "string \<Rightarrow> string" where
  \<comment> \<open>\<open>repr(s)\<close>, which the format specifier \<open>!r\<close> applies\<close>
  "py_repr s =
     (let q = (if apostrophe \<in> set s \<and> quote \<notin> set s then quote else apostrophe)
      in q # concat (map (repr_char q) s) @ [q])"

subsection \<open>\<open>_pseudoloc\<close>\<close>

definition match_token :: "string \<Rightarrow> (string \<times> string) option" where
  \<comment> \<open>The pattern \<open>%\([a-zA-Z0-9_-]+\)\<close> at the head of the string: the token and what follows
      it. The class excludes the closing parenthesis, so only the longest run of identifier
      characters can be followed by it.\<close>
  "match_token s =
     (if startswith ''%('' s then
        (let name = takeWhile is_ident (drop 2 s); rest = dropWhile is_ident (drop 2 s)
         in if name \<noteq> [] \<and> startswith '')'' rest
            then Some (''%('' @ name @ '')'', drop 1 rest) else None)
      else None)"

function re_split_from :: "string \<Rightarrow> string \<Rightarrow> string list" where
  \<comment> \<open>the scan of \<open>re.split\<close> with its one capturing group: \<open>seg\<close> is the text since the last
      match\<close>
  "re_split_from seg [] = [seg]"
| "re_split_from seg (c # cs) =
     (case match_token (c # cs) of
        Some (tok, rest) \<Rightarrow> seg # tok # re_split_from [] rest
      | None \<Rightarrow> re_split_from (seg @ [c]) cs)"
  by pat_completeness auto
termination
  apply (relation "measure (\<lambda>(seg, s). length s)")
    apply simp_all
  subgoal for c cs
    using length_dropWhile_le [of is_ident "drop (Suc 0) cs"]
    by (auto simp: match_token_def Let_def split: if_splits)
  done

definition re_split :: "string \<Rightarrow> string list" where
  \<comment> \<open>\<open>re.split(r'(%\([a-zA-Z0-9_-]+\))', original)\<close>\<close>
  "re_split original = re_split_from [] original"

definition table :: "(char \<times> char) list" where
  \<comment> \<open>\<open>str.maketrans('elsot', '31507')\<close>\<close>
  "table = zip ''elsot'' ''31507''"

definition translate :: "(char \<times> char) list \<Rightarrow> string \<Rightarrow> string" where
  \<comment> \<open>\<open>token.translate(table)\<close>\<close>
  "translate t s = map (\<lambda>c. case map_of t c of Some d \<Rightarrow> d | None \<Rightarrow> c) s"

definition pseudoloc :: "string \<Rightarrow> string" where
  "pseudoloc original =
     ''('' @ concat (map (\<lambda>token. if startswith ''%('' token \<and> endswith '')'' token then token
                                  else translate table token)
                         (re_split original)) @ '')''"

subsection \<open>The translation table, diagnostics and errors\<close>

text \<open>
  The table maps a key to its texts by language; every inner dictionary the linter creates is
  a \<open>collections.defaultdict(str)\<close>.
\<close>

type_synonym entry = "(string \<times> string) list"

type_synonym strings = "(string \<times> entry) list"

datatype message =
    Str string
  | StrOfUnicodeDecodeError string
    \<comment> \<open>\<open>str(exc)\<close> of the \<open>UnicodeDecodeError\<close> raised for these bytes; its wording is the
        codec's and is not spelled out\<close>

datatype diagnostic =
  Diagnostic message string "nat option" "string option"
    \<comment> \<open>\<open>linters.Diagnostic(message, filename=..., lineno=..., line=...)\<close>; \<open>None\<close> where
        the call passes no \<open>lineno\<close> or \<open>line\<close>\<close>

datatype error =
    LinterException string "bool option" "diagnostic list"
    \<comment> \<open>\<open>linters.LinterException(message, fixable=..., diagnostics=...)\<close>; \<open>None\<close> where the
        call passes no \<open>fixable\<close>\<close>
  | UnboundLocalError string
  | UnicodeDecodeError string
  | KeyError string

definition TEMPLATES_PATH :: string where
  "TEMPLATES_PATH = ''frontend/templates''"



definition LANGS :: "string list" where
  "LANGS = [''en'', ''es'', ''pt'']"

definition os_path_join :: "string \<Rightarrow> string \<Rightarrow> string" where
  \<comment> \<open>\<open>os.path.join(a, b)\<close> of \<open>posixpath\<close>\<close>
  "os_path_join a b =
     (if startswith ''/'' b then b
      else if a = [] \<or> endswith ''/'' a then a @ b
      else a @ ''/'' @ b)"


definition getitem_default :: "entry \<Rightarrow> string \<Rightarrow> string \<times> entry" where
  \<comment> \<open>\<open>values[k]\<close> on a \<open>defaultdict(str)\<close>: a missing key is inserted with the empty string\<close>
  "getitem_default values k =
     (case map_of values k of Some v \<Rightarrow> (v, values) | None \<Rightarrow> ([], values @ [(k, [])]))"

subsection \<open>\<open>_check_missing_entries\<close>\<close>

text \<open>
  \<open>languages\<close> is a Python set; the list stands for the set together with the order in which
  the set difference happens to be iterated. The function mutates the inner dictionaries and
  raises at the end, so the model returns the table as it is left and the exception, if any.
\<close>

definition check_entry :: "string list \<Rightarrow> string \<Rightarrow> entry \<Rightarrow> entry \<times> diagnostic list" where
  \<comment> \<open>the body of the loop over \<open>strings.items()\<close>\<close>
  "check_entry languages key values =
     (let missing_languages = filter (\<lambda>lang. lang \<notin> set (map fst values)) languages in
      if missing_languages \<noteq> [] then
        (values,
         map (\<lambda>lang. Diagnostic (Str (''Missing entry: '' @ py_repr key))
                          (os_path_join TEMPLATES_PATH (lang @ ''.lang'')) None None)
             missing_languages)
      else if key = ''locale'' then (AList.update ''pseudo'' ''pseudo'' values, [])
      else (let (en, values1) = getitem_default values ''en''
            in (AList.update ''pseudo'' (pseudoloc en) values1, [])))"

fun check_loop :: "string list \<Rightarrow> strings \<Rightarrow> strings \<times> diagnostic list" where
  "check_loop languages [] = ([], [])"
| "check_loop languages ((key, values) # rest) =
     (let (values1, ds) = check_entry languages key values;
          (rest1, ds1) = check_loop languages rest
      in ((key, values1) # rest1, ds @ ds1))"

definition check_missing_entries :: "strings \<Rightarrow> string list \<Rightarrow> strings \<times> error option" where
  "check_missing_entries strings languages =
     (let (strings1, diagnostics) = check_loop languages strings
      in (strings1,
          if diagnostics \<noteq> []
          then Some (LinterException ''There are missing items in some files'' None diagnostics)
          else None))"

subsection \<open>Bytes and text\<close>

definition utf8_encode_char :: "char \<Rightarrow> string" where
  "utf8_encode_char c =
     (let n = (of_char c :: nat)
      in if n < 128 then [c] else [char_of (192 + n div 64), char_of (128 + n mod 64)])"

definition utf8_encode :: "string \<Rightarrow> string" where
  \<comment> \<open>\<open>text.encode('utf-8')\<close>\<close>
  "utf8_encode text = concat (map utf8_encode_char text)"



subsection \<open>\<open>_get_translated_strings\<close>\<close>











subsection \<open>\<open>_add_badges_entries\<close>\<close>






subsection \<open>The three renderings\<close>

definition getitem2 :: "strings \<Rightarrow> string \<Rightarrow> string \<Rightarrow> string" where
  \<comment> \<open>\<open>strings[key][lang]\<close> for a key of the table; a missing language reads as the empty
      string. (The \<open>defaultdict\<close> also stores that empty string; no later step looks at it.)\<close>
  "getitem2 strings key lang =
     (case map_of strings key of
        None \<Rightarrow> []
      | Some values \<Rightarrow> (case map_of values lang of None \<Rightarrow> [] | Some text \<Rightarrow> text))"

definition unescape :: "string \<Rightarrow> string" where
  "unescape s = replace [backslash, CHR ''n''] [newline] (replace [backslash, quote] [quote] s)"

fun join :: "string \<Rightarrow> string list \<Rightarrow> string" where
  \<comment> \<open>\<open>sep.join(parts)\<close>\<close>
  "join sep [] = []"
| "join sep [x] = x"
| "join sep (x # y # ys) = x @ sep @ join sep (y # ys)"

definition json_escape_char :: "char \<Rightarrow> string" where
  "json_escape_char c =
     (let n = (of_char c :: nat)
      in if c = quote then [backslash, quote]
         else if c = backslash then [backslash, backslash]
         else if c = newline then [backslash, CHR ''n'']
         else if c = CHR 0x0D then [backslash, CHR ''r'']
         else if c = tab then [backslash, CHR ''t'']
         else if c = CHR 0x0C then [backslash, CHR ''f'']
         else if c = CHR 0x08 then [backslash, CHR ''b'']
         else if 32 \<le> n \<and> n \<le> 126 then [c]
         else [backslash, CHR ''u'', CHR ''0'', CHR ''0'', hexdigit (n div 16), hexdigit (n mod 16)])"

definition json_dumps_str :: "string \<Rightarrow> string" where
  \<comment> \<open>\<open>json.dumps(s)\<close> for a string, with the default \<open>ensure_ascii=True\<close>\<close>
  "json_dumps_str s = quote # concat (map json_escape_char s) @ [quote]"

definition json_dumps_dict :: "(string \<times> string) list \<Rightarrow> string" where
  \<comment> \<open>\<open>json.dumps(d, sort_keys=True, indent='\t')\<close> for a dictionary of strings\<close>
  "json_dumps_dict d =
     (if d = [] then ''{}''
      else ''{'' @ [newline, tab]
           @ join [CHR '','', newline, tab]
               (map (\<lambda>(k, v). json_dumps_str k @ '': '' @ json_dumps_str v) (sort_key fst d))
           @ [newline] @ ''}'')"


definition generate_json :: "string \<Rightarrow> strings \<Rightarrow> string" where
  "generate_json lang strings =
     json_dumps_dict
       (fold (\<lambda>key json_map. AList.update key (unescape (getitem2 strings key lang)) json_map)
             (sort (map fst strings)) [])"


subsection \<open>\<open>_generate_content_entry\<close>, \<open>_generate_new_contents\<close> and \<open>run_all\<close>\<close>








subsection \<open>Notions used in the statements\<close>















fun unescape_each :: "string \<Rightarrow> string" where
  \<comment> \<open>The unescape step in the words of the specification: in one pass, every backslash-quote
      becomes a quote and every backslash-n becomes a newline. It is compared with
      \<^const>\<open>unescape\<close>, the two calls of \<open>replace\<close> of the source.\<close>
  "unescape_each (c # d # cs) =
     (if c = backslash \<and> d = quote then quote # unescape_each cs
      else if c = backslash \<and> d = CHR ''n'' then newline # unescape_each cs
      else c # unescape_each (d # cs))"
| "unescape_each [c] = [c]"
| "unescape_each [] = []"





subsection \<open>Concrete inputs used below\<close>

definition table_hi :: strings where
  "table_hi = [(''hi'', [(''en'', ''Hi!''), (''es'', ''Hola''), (''pt'', ''Oi'')])]"










section \<open>Properties\<close>

subsection \<open>The pseudolocalization transform\<close>

text \<open>
  C1. The source decides whether a segment is a placeholder by \<open>startswith('%(')\<close> and
  \<open>endswith(')')\<close>, not by the pattern it split on. The input \<open>%(hello world)\<close> holds no
  placeholder (a space is no identifier character), so the split returns it as one segment
  that does not match the pattern; the substitution would give \<open>%(h3110 w0r1d)\<close>, yet
  the segment passes the test of the source and is returned unchanged.
\<close>

theorem pseudoloc_keeps_unmatched_segment:
  "match_token ''%(hello world)'' = None
   \<and> re_split ''%(hello world)'' = [''%(hello world)'']
   \<and> translate table ''%(hello world)'' = ''%(h3110 w0r1d)''
   \<and> pseudoloc ''%(hello world)'' = ''(%(hello world))''"
  by (simp add: pseudoloc_def re_split_def match_token_def startswith_def endswith_def
        is_ident_def translate_def table_def)

subsection \<open>The consistency checker\<close>

lemma keys_update: "fst ` set (AList.update k v al) = insert k (fst ` set al)"
  by (simp add: dom_update)

lemma check_entry_no_diagnostics:
  assumes "check_entry languages key values = (values1, [])"
  shows "set languages \<subseteq> fst ` set values1 \<and> ''pseudo'' \<in> fst ` set values1"
proof (cases "filter (\<lambda>lang. lang \<notin> set (map fst values)) languages = []")
  case True
  then have all: "set languages \<subseteq> fst ` set values"
    by (auto simp: filter_empty_conv)
  from assms True show ?thesis
    using all
    by (auto simp: check_entry_def Let_def getitem_default_def keys_update
             split: if_splits option.splits)
next
  case False
  with assms show ?thesis
    by (simp add: check_entry_def Let_def)
qed

lemma check_loop_no_diagnostics:
  "check_loop languages strings = (strings1, []) \<Longrightarrow> (key, values) \<in> set strings1 \<Longrightarrow>
     set languages \<subseteq> fst ` set values \<and> ''pseudo'' \<in> fst ` set values"
proof (induction strings arbitrary: strings1)
  case Nil
  then show ?case by simp
next
  case (Cons kv rest)
  obtain k vs where kv: "kv = (k, vs)" by (cases kv)
  obtain vs1 ds where e: "check_entry languages k vs = (vs1, ds)" by force
  obtain rest1 ds1 where r: "check_loop languages rest = (rest1, ds1)" by force
  from Cons.prems(1) kv e r have s1: "strings1 = (k, vs1) # rest1" and "ds = []" and "ds1 = []"
    by auto
  with e r have e': "check_entry languages k vs = (vs1, [])" and r': "check_loop languages rest = (rest1, [])"
    by simp_all
  from Cons.prems(2) s1 consider "(key, values) = (k, vs1)" | "(key, values) \<in> set rest1" by auto
  then show ?case
  proof cases
    case 1
    with check_entry_no_diagnostics [OF e'] show ?thesis by simp
  next
    case 2
    with Cons.IH [OF r'] show ?thesis by simp
  qed
qed

text \<open>
  C2. When the checker raises nothing, every key of the table it leaves has an entry for
  \<open>en\<close>, \<open>es\<close>, \<open>pt\<close> and \<open>pseudo\<close>.
\<close>

theorem checker_success_full_coverage:
  assumes "check_missing_entries strings LANGS = (strings1, None)"
    and "(key, values) \<in> set strings1"
  shows "map_of values ''en'' \<noteq> None \<and> map_of values ''es'' \<noteq> None
       \<and> map_of values ''pt'' \<noteq> None \<and> map_of values ''pseudo'' \<noteq> None"
proof -
  obtain t ds where l: "check_loop LANGS strings = (t, ds)" by force
  with assms(1) have "t = strings1" and "ds = []"
    by (auto simp: check_missing_entries_def split: if_splits)
  with l have "check_loop LANGS strings = (strings1, [])" by simp
  from check_loop_no_diagnostics [OF this assms(2)]
  show ?thesis
    by (simp add: LANGS_def map_of_eq_None_iff)
qed

lemma pseudoloc_hi: "pseudoloc ''Hi!'' = ''(Hi!)''"
  by (simp add: pseudoloc_def re_split_def match_token_def startswith_def endswith_def translate_def table_def)

lemma check_table_hi: "check_missing_entries table_hi LANGS =
   ([(''hi'', [(''en'', ''Hi!''), (''es'', ''Hola''), (''pt'', ''Oi''), (''pseudo'', ''(Hi!)'')])], None)"
  by (simp add: check_missing_entries_def table_hi_def LANGS_def check_entry_def getitem_default_def pseudoloc_hi)

theorem checker_success_full_coverage_witness:
  "check_missing_entries table_hi LANGS =
     ([(''hi'', [(''en'', ''Hi!''), (''es'', ''Hola''), (''pt'', ''Oi''), (''pseudo'', ''(Hi!)'')])], None)
   \<and> map_of [(''en'', ''Hi!''), (''es'', ''Hola''), (''pt'', ''Oi''), (''pseudo'', ''(Hi!)'')] ''pseudo'' \<noteq> None"
  using checker_success_full_coverage [OF check_table_hi, of "''hi''" "[(''en'', ''Hi!''), (''es'', ''Hola''), (''pt'', ''Oi''), (''pseudo'', ''(Hi!)'')]"]
    check_table_hi
  by simp







lemma map_of_check_loop:
  "map_of (fst (check_loop languages strings)) key =
     map_option (\<lambda>values. fst (check_entry languages key values)) (map_of strings key)"
  by (induction strings) (auto simp: split_beta Let_def)

lemma pseudoloc_parenthesised: "pseudoloc original \<noteq> ''pseudo''"
  by (simp add: pseudoloc_def)

text \<open>
  C6. When the key \<open>locale\<close> has every required language, the checker leaves it with the
  \<open>pseudo\<close> value \<open>pseudo\<close>, whatever its \<open>en\<close> value is; the transform of that value is never
  this string.
\<close>

theorem checker_locale_pseudo:
  assumes "map_of strings ''locale'' = Some values"
    and "\<forall>lang \<in> set LANGS. map_of values lang \<noteq> None"
  shows "\<exists>values1. map_of (fst (check_missing_entries strings LANGS)) ''locale'' = Some values1
           \<and> map_of values1 ''pseudo'' = Some ''pseudo''
           \<and> (\<forall>en. map_of values ''en'' = Some en \<longrightarrow> map_of values1 ''pseudo'' \<noteq> Some (pseudoloc en))"
proof -
  have "filter (\<lambda>lang. lang \<notin> set (map fst values)) LANGS = []"
    using assms(2) by (auto simp: filter_empty_conv map_of_eq_None_iff)
  then have e: "check_entry LANGS ''locale'' values = (AList.update ''pseudo'' ''pseudo'' values, [])"
    by (simp add: check_entry_def Let_def)
  have "map_of (fst (check_missing_entries strings LANGS)) ''locale''
        = Some (AList.update ''pseudo'' ''pseudo'' values)"
    using assms(1) by (simp add: check_missing_entries_def split_beta map_of_check_loop e)
  then show ?thesis
    by (simp add: update_conv' pseudoloc_parenthesised [THEN not_sym])
qed


theorem checker_locale_pseudo_witness:
  "map_of (fst (check_missing_entries
      [(''locale'', [(''en'', ''en''), (''es'', ''es''), (''pt'', ''pt'')])] LANGS)) ''locale''
   = Some [(''en'', ''en''), (''es'', ''es''), (''pt'', ''pt''), (''pseudo'', ''pseudo'')]"
proof -
  have a: "map_of [(''locale'', [(''en'', ''en''), (''es'', ''es''), (''pt'', ''pt'')])] ''locale''
       = Some [(''en'', ''en''), (''es'', ''es''), (''pt'', ''pt'')]"
    by simp
  have b: "\<forall>lang \<in> set LANGS. map_of [(''en'', ''en''), (''es'', ''es''), (''pt'', ''pt'')] lang \<noteq> None"
    by (simp add: LANGS_def)
  show ?thesis
    using checker_locale_pseudo [OF a b]
    by (simp add: check_missing_entries_def check_entry_def LANGS_def)
qed

subsection \<open>The parser\<close>



















subsection \<open>The merger of the badge entries\<close>










subsection \<open>Bytes and text\<close>










subsection \<open>The drift detector\<close>










subsection \<open>The JSON rendering\<close>

lemma replace_quote_escape_Cons:
  "replace [backslash, quote] [quote] (c # cs) =
     (if c = backslash \<and> cs \<noteq> [] \<and> hd cs = quote
      then quote # replace [backslash, quote] [quote] (tl cs)
      else c # replace [backslash, quote] [quote] cs)"
  by (cases cs) (auto simp: startswith_def)

lemma replace_newline_escape_Cons:
  "replace [backslash, CHR ''n''] [newline] (c # cs) =
     (if c = backslash \<and> cs \<noteq> [] \<and> hd cs = CHR ''n''
      then newline # replace [backslash, CHR ''n''] [newline] (tl cs)
      else c # replace [backslash, CHR ''n''] [newline] cs)"
  by (cases cs) (auto simp: startswith_def)

lemma replace_quote_escape_head:
  "d \<noteq> CHR ''n'' \<Longrightarrow>
     replace [backslash, quote] [quote] (d # cs) \<noteq> []
     \<and> hd (replace [backslash, quote] [quote] (d # cs)) \<noteq> CHR ''n''"
  by (simp add: replace_quote_escape_Cons)

lemma unescape_is_unescape_each: "unescape s = unescape_each s"
proof (induction s rule: unescape_each.induct)
  case (1 c d cs)
  show ?case
  proof (cases "c = backslash \<and> d = quote")
    case True
    with 1 show ?thesis
      by (simp add: unescape_def replace_quote_escape_Cons replace_newline_escape_Cons
               del: replace.simps)
  next
    case nq: False
    show ?thesis
    proof (cases "c = backslash \<and> d = CHR ''n''")
      case True
      with 1 nq show ?thesis
        by (simp add: unescape_def replace_quote_escape_Cons replace_newline_escape_Cons
                 del: replace.simps)
    next
      case False
      with nq have step: "replace [backslash, quote] [quote] (c # d # cs) =
          c # replace [backslash, quote] [quote] (d # cs)"
        by (simp add: replace_quote_escape_Cons [of c] del: replace.simps)
      have "c = backslash \<Longrightarrow> d \<noteq> CHR ''n''" using False by simp
      then have "\<not> (c = backslash \<and> replace [backslash, quote] [quote] (d # cs) \<noteq> []
          \<and> hd (replace [backslash, quote] [quote] (d # cs)) = CHR ''n'')"
        using replace_quote_escape_head [of d cs] by blast
      then have "replace [backslash, CHR ''n''] [newline]
            (c # replace [backslash, quote] [quote] (d # cs)) =
          c # replace [backslash, CHR ''n''] [newline] (replace [backslash, quote] [quote] (d # cs))"
        by (simp only: replace_newline_escape_Cons [of c] if_False)
      with 1(3) [OF nq False] nq False step show ?thesis
        by (simp add: unescape_def del: replace.simps)
    qed
  qed
next
  case (2 c)
  show ?case by (simp add: unescape_def startswith_def)
next
  case 3
  show ?case by (simp add: unescape_def)
qed

lemma update_new_key: "k \<notin> fst ` set al \<Longrightarrow> AList.update k v al = al @ [(k, v)]"
  by (induction al) auto

lemma fold_update_distinct:
  "distinct ks \<Longrightarrow> set ks \<inter> fst ` set acc = {} \<Longrightarrow>
     fold (\<lambda>key json_map. AList.update key (f key) json_map) ks acc = acc @ map (\<lambda>key. (key, f key)) ks"
proof (induction ks arbitrary: acc)
  case Nil
  show ?case by simp
next
  case (Cons k ks)
  from Cons.prems have n: "k \<notin> fst ` set acc" and d: "distinct ks"
    and i: "set ks \<inter> fst ` set (acc @ [(k, f k)]) = {}"
    by auto
  show ?case
    by (simp add: update_new_key [OF n] Cons.IH [OF d i])
qed

lemma json_map_sorted:
  assumes "distinct (map fst strings)"
  shows "sort_key fst
           (fold (\<lambda>key json_map. AList.update key (f key) json_map) (sort (map fst strings)) [])
         = map (\<lambda>key. (key, f key)) (sort (map fst strings))"
proof -
  have d: "distinct (sort (map fst strings))" using assms by simp
  have "fold (\<lambda>key json_map. AList.update key (f key) json_map) (sort (map fst strings)) []
      = map (\<lambda>key. (key, f key)) (sort (map fst strings))"
    using fold_update_distinct [OF d, of "[]" f] by simp
  moreover have "sorted (map fst (map (\<lambda>key. (key, f key)) (sort (map fst strings))))"
    by (simp add: comp_def)
  ultimately show ?thesis
    by (simp only: sort_key_id_if_sorted)
qed

text \<open>
  C8. For a table (a dictionary, so its keys are distinct) and a language, the JSON rendering
  is \<open>{}\<close> for the empty table and otherwise one object with one member per key, in
  ascending key order, each on its own line behind a tab: the JSON string of the key, a
  colon and a space, and the JSON string of the unescaped text. The unescape step of the
  source agrees with the one-pass reading of the specification
  (\<open>unescape_is_unescape_each\<close>). The table \<open>{"hi": {"en": "Hi!"}}\<close> gives the object that maps
  \<open>hi\<close> to \<open>Hi!\<close>.
\<close>

theorem generate_json_sorted_object:
  assumes "distinct (map fst strings)"
  shows "generate_json lang strings =
     (if strings = [] then ''{}''
      else ''{'' @ [newline, tab]
           @ join [CHR '','', newline, tab]
               (map (\<lambda>key. json_dumps_str key @ '': ''
                             @ json_dumps_str (unescape_each (getitem2 strings key lang)))
                    (sort (map fst strings)))
           @ [newline] @ ''}'')
   \<and> generate_json ''en'' table_hi =
       ''{'' @ [newline, tab, quote] @ ''hi'' @ [quote] @ '': '' @ [quote] @ ''Hi!'' @ [quote, newline] @ ''}''"
proof
  let ?f = "\<lambda>key. unescape (getitem2 strings key lang)"
  let ?m = "fold (\<lambda>key json_map. AList.update key (?f key) json_map) (sort (map fst strings)) []"
  have m: "?m = map (\<lambda>key. (key, ?f key)) (sort (map fst strings))"
    using fold_update_distinct [of "sort (map fst strings)" "[]" ?f] assms by simp
  have "length (sort (map fst strings)) = length strings" by simp
  then have "sort (map fst strings) = [] \<longleftrightarrow> strings = []"
    by (metis length_0_conv)
  then have e: "?m = [] \<longleftrightarrow> strings = []"
    by (simp only: m map_is_Nil_conv)
  have s: "sort_key fst ?m = map (\<lambda>key. (key, ?f key)) (sort (map fst strings))"
    by (rule json_map_sorted [OF assms])
  show "generate_json lang strings =
     (if strings = [] then ''{}''
      else ''{'' @ [newline, tab]
           @ join [CHR '','', newline, tab]
               (map (\<lambda>key. json_dumps_str key @ '': ''
                             @ json_dumps_str (unescape_each (getitem2 strings key lang)))
                    (sort (map fst strings)))
           @ [newline] @ ''}'')"
    unfolding generate_json_def json_dumps_dict_def s e
    by (simp add: comp_def unescape_is_unescape_each)
next
  show "generate_json ''en'' table_hi =
       ''{'' @ [newline, tab, quote] @ ''hi'' @ [quote] @ '': '' @ [quote] @ ''Hi!'' @ [quote, newline] @ ''}''"
    by code_simp
qed

theorem generate_json_sorted_object_witness:
  "generate_json ''en'' [(''b_key'', [(''en'', ''x'' @ [backslash, CHR ''n'', backslash, quote])]),
                          (''a_key'', [(''en'', ''y'')])] =
     ''{'' @ [newline, tab]
       @ [quote] @ ''a_key'' @ [quote] @ '': '' @ [quote] @ ''y'' @ [quote]
       @ [CHR '','', newline, tab]
       @ [quote] @ ''b_key'' @ [quote] @ '': ''
       @ [quote] @ ''x'' @ [backslash, CHR ''n'', backslash, quote] @ [quote]
       @ [newline] @ ''}''"
proof -
  have d: "distinct (map fst [(''b_key'', [(''en'', ''x'' @ [backslash, CHR ''n'', backslash, quote])]),
                          (''a_key'', [(''en'', ''y'')])])"
    by simp
  have "generate_json ''en'' [(''b_key'', [(''en'', ''x'' @ [backslash, CHR ''n'', backslash, quote])]),
                          (''a_key'', [(''en'', ''y'')])] =
     (if [(''b_key'', [(''en'', ''x'' @ [backslash, CHR ''n'', backslash, quote])]),
          (''a_key'', [(''en'', ''y'')])] = [] then ''{}''
      else ''{'' @ [newline, tab]
           @ join [CHR '','', newline, tab]
               (map (\<lambda>key. json_dumps_str key @ '': ''
                             @ json_dumps_str (unescape_each (getitem2
                                 [(''b_key'', [(''en'', ''x'' @ [backslash, CHR ''n'', backslash, quote])]),
                                  (''a_key'', [(''en'', ''y'')])] key ''en'')))
                    (sort (map fst [(''b_key'', [(''en'', ''x'' @ [backslash, CHR ''n'', backslash, quote])]),
                                    (''a_key'', [(''en'', ''y'')])])))
           @ [newline] @ ''}'')"
    using generate_json_sorted_object [OF d, of "''en''"] by blast
  also have "\<dots> = ''{'' @ [newline, tab]
       @ [quote] @ ''a_key'' @ [quote] @ '': '' @ [quote] @ ''y'' @ [quote]
       @ [CHR '','', newline, tab]
       @ [quote] @ ''b_key'' @ [quote] @ '': ''
       @ [quote] @ ''x'' @ [backslash, CHR ''n'', backslash, quote] @ [quote]
       @ [newline] @ ''}''"
    by code_simp
  finally show ?thesis .
qed

subsection \<open>The sorted rendering read back by the parser\<close>






















lemma utf8_encode_append: "utf8_encode (a @ b) = utf8_encode a @ utf8_encode b"
  by (simp add: utf8_encode_def)

lemma utf8_encode_newline: "utf8_encode [newline] = [newline]"
  by (simp add: utf8_encode_def utf8_encode_char_def)

















end
